theory Spec2Isabelle
  imports Main "HOL-Library.Word" "HOL-Library.Sublist" "HOL-Library.Multiset"
begin

section \<open>Python primitives used by enrich-articles.py\<close>

text \<open>
  Python strings are modelled as \<open>string\<close>: a character is a code point below 256.
  Python integers are \<open>int\<close>; lengths are converted with \<open>int\<close>.
\<close>

type_synonym byte = "8 word"

text \<open>The slice \<open>xs[:n]\<close>: a negative bound counts from the end and is clamped at 0.\<close>

definition py_take :: "int \<Rightarrow> 'a list \<Rightarrow> 'a list" where
  "py_take n xs =
     (if 0 \<le> n then take (nat n) xs else take (nat (int (length xs) + n)) xs)"

text \<open>\<open>str.lower()\<close> on code points below 256.\<close>

definition py_lower_char :: "char \<Rightarrow> char" where
  "py_lower_char c =
     (let n = (of_char c :: nat)
      in if (65 \<le> n \<and> n \<le> 90) \<or> (192 \<le> n \<and> n \<le> 222 \<and> n \<noteq> 215)
         then char_of (n + 32) else c)"

definition py_lower :: "string \<Rightarrow> string" where
  "py_lower s = map py_lower_char s"

text \<open>\<open>s.lstrip(chars)\<close> removes every leading character that occurs in \<open>chars\<close>.\<close>

definition py_lstrip :: "string \<Rightarrow> string \<Rightarrow> string" where
  "py_lstrip chars s = dropWhile (\<lambda>c. c \<in> set chars) s"

text \<open>\<open>sub in s\<close> on strings: \<open>sub\<close> occurs as a contiguous run of \<open>s\<close>.\<close>

fun py_in_str :: "string \<Rightarrow> string \<Rightarrow> bool" where
  "py_in_str sub [] = (sub = [])"
| "py_in_str sub (c # cs) = (prefix sub (c # cs) \<or> py_in_str sub cs)"

text \<open>Decimal rendering of a non-negative integer, as an f-string prints it.\<close>

definition digit_char :: "nat \<Rightarrow> char" where
  "digit_char d = char_of (48 + d)"

fun show_nat :: "nat \<Rightarrow> string" where
  "show_nat n = (if n < 10 then [digit_char n] else show_nat (n div 10) @ [digit_char (n mod 10)])"

declare show_nat.simps [simp del]

text \<open>
  Exceptions as values. \<open>HTTPError\<close> carries \<open>e.code\<close>, \<open>URLError\<close> carries
  \<open>str(e.reason)\<close>, \<open>OtherError\<close> carries \<open>str(e)\<close> of any other \<open>Exception\<close>.
\<close>

datatype exn = HTTPError nat | URLError string | OtherError string

text \<open>
  \<open>str.isdigit()\<close>: non-empty and every character a digit. Below 256 the digits are
  \<open>0\<close>..\<open>9\<close> and the superscripts two, three and one (178, 179, 185).
\<close>

definition ascii_digit :: "char \<Rightarrow> bool" where
  "ascii_digit c = (let n = (of_char c :: nat) in 48 \<le> n \<and> n \<le> 57)"

definition py_isdigit_char :: "char \<Rightarrow> bool" where
  "py_isdigit_char c =
     (let n = (of_char c :: nat) in (48 \<le> n \<and> n \<le> 57) \<or> n = 178 \<or> n = 179 \<or> n = 185)"

definition py_isdigit :: "string \<Rightarrow> bool" where
  "py_isdigit s = (s \<noteq> [] \<and> list_all py_isdigit_char s)"

text \<open>
  \<open>int(s)\<close> on a string that passed \<open>isdigit\<close>: the value when every character is a
  decimal digit, \<open>ValueError\<close> on a superscript digit and on more digits than the
  interpreter's conversion limit (4300 by default).
\<close>

definition int_max_str_digits :: nat where
  "int_max_str_digits = 4300"

definition digits_value :: "string \<Rightarrow> nat" where
  "digits_value s = foldl (\<lambda>acc c. 10 * acc + ((of_char c :: nat) - 48)) 0 s"

definition py_int :: "string \<Rightarrow> exn + int" where
  "py_int s =
     (if \<not> list_all ascii_digit s
      then Inl (OtherError (''invalid literal for int() with base 10: '' @ [CHR 0x27] @ s @ [CHR 0x27]))
      else if int_max_str_digits < length s
      then Inl (OtherError (''Exceeds the limit ('' @ show_nat int_max_str_digits
             @ '' digits) for integer string conversion: value has '' @ show_nat (length s)
             @ '' digits; use sys.set_int_max_str_digits() to increase the limit''))
      else Inr (int (digits_value s)))"

section \<open>The world outside the script\<close>

text \<open>
  One HTTP response, as far as \<open>fetch_full_text\<close> reads it: the \<open>Content-Type\<close> and
  \<open>x-markdown-tokens\<close> headers (\<open>None\<close> when absent) and the body bytes.
\<close>

record response =
  content_type :: "string option"
  markdown_tokens :: "string option"
  body :: "byte list"

text \<open>
  The library and network behaviour the script depends on, as parameters:
  \<^item> \<open>urlparse_netloc url\<close> is \<open>urlparse(url).netloc\<close>, or the exception \<open>urlparse\<close> raises;
  \<^item> \<open>urlopen url\<close> is the outcome of the request with the script's headers and timeout,
    including the read of the body: the response, or the exception raised;
  \<^item> \<open>gzip_decompress\<close> is \<open>gzip.decompress\<close>, which may raise;
  \<^item> \<open>decode_utf8\<close> is \<open>bytes.decode("utf-8", errors="replace")\<close>, which never raises;
  \<^item> \<open>extract_readable_text\<close> is the script's Text Extractor, which runs the standard
    library's \<open>HTMLParser\<close> and returns the empty string when the parser raises;
  \<^item> \<open>schedule\<close> resolves the order in which the thread pool completes its futures.
  Every theorem below holds for every such environment.
\<close>

record env =
  urlparse_netloc :: "string \<Rightarrow> exn + string"
  urlopen :: "string \<Rightarrow> exn + response"
  gzip_decompress :: "byte list \<Rightarrow> exn + byte list"
  decode_utf8 :: "byte list \<Rightarrow> string"
  extract_readable_text :: "string \<Rightarrow> string"
  schedule :: "nat list"

section \<open>Domain Classifier\<close>

definition SKIP_DOMAINS :: "string list" where
  "SKIP_DOMAINS =
     [''twitter.com'', ''x.com'',
      ''reddit.com'', ''old.reddit.com'',
      ''github.com'',
      ''youtube.com'', ''youtu.be'',
      ''nytimes.com'', ''bloomberg.com'', ''wsj.com'', ''ft.com'',
      ''arxiv.org'']"

text \<open>
  \<^verbatim>\<open>
  def get_domain(url):
      try:
          return urlparse(url).netloc.lower().lstrip("www.")
      except Exception:
          return ""
  \<close>
\<close>

definition get_domain :: "env \<Rightarrow> string \<Rightarrow> string" where
  "get_domain E url =
     (case urlparse_netloc E url of
        Inl e \<Rightarrow> []
      | Inr netloc \<Rightarrow> py_lstrip ''www.'' (py_lower netloc))"

section \<open>Content Fetcher\<close>

text \<open>A FetchOutcome: the dictionary with keys \<open>text\<close>, \<open>method\<close>, \<open>tokens\<close>, \<open>error\<close>.\<close>

record fetch_outcome =
  out_text :: string
  out_method :: string
  out_tokens :: int
  out_error :: "string option"

text \<open>
  Lines 105 to 116: the request, the gzip sniffing on the first two bytes and the decoding.
  The result is \<open>(content_type, token_header, text)\<close> or the exception raised on the way.
\<close>

definition fetch_body :: "env \<Rightarrow> string \<Rightarrow> exn + (string \<times> string \<times> string)" where
  "fetch_body E url =
     (case urlopen E url of
        Inl e \<Rightarrow> Inl e
      | Inr resp \<Rightarrow>
          (let ctype = (case content_type resp of None \<Rightarrow> [] | Some c \<Rightarrow> c);
               token_header = (case markdown_tokens resp of None \<Rightarrow> [] | Some t \<Rightarrow> t);
               raw = body resp
           in case (if take 2 raw = [0x1f, 0x8b] then gzip_decompress E raw else Inr raw) of
                Inl e \<Rightarrow> Inl e
              | Inr raw' \<Rightarrow> Inr (ctype, token_header, decode_utf8 E raw')))"

text \<open>Lines 104 to 126: the body of the \<open>try\<close> block; \<open>Inl\<close> is an exception leaving it.\<close>

definition fetch_try :: "env \<Rightarrow> string \<Rightarrow> int \<Rightarrow> exn + fetch_outcome" where
  "fetch_try E url max_chars =
     (case fetch_body E url of
        Inl e \<Rightarrow> Inl e
      | Inr (ctype, token_header, txt) \<Rightarrow>
          if py_in_str ''text/markdown'' ctype
          then (case (if py_isdigit token_header then py_int token_header
                      else Inr (int (length txt) div 4)) of
                  Inl e \<Rightarrow> Inl e
                | Inr tokens \<Rightarrow>
                    Inr \<lparr>out_text = py_take max_chars txt, out_method = ''cf-markdown'',
                         out_tokens = tokens, out_error = None\<rparr>)
          else (let extracted = extract_readable_text E txt
                in if length extracted < 100
                   then Inr \<lparr>out_text = [], out_method = ''html-too-short'', out_tokens = 0,
                             out_error = Some ''extracted text too short''\<rparr>
                   else Inr \<lparr>out_text = py_take max_chars extracted, out_method = ''html-extract'',
                             out_tokens = int (length (py_take max_chars extracted)) div 4,
                             out_error = None\<rparr>))"

text \<open>Lines 128 to 133: the three handlers, in the source's order.\<close>

fun handle_exn :: "exn \<Rightarrow> fetch_outcome" where
  "handle_exn (HTTPError code) =
     \<lparr>out_text = [], out_method = ''error'', out_tokens = 0,
      out_error = Some (''HTTP '' @ show_nat code)\<rparr>"
| "handle_exn (URLError reason) =
     \<lparr>out_text = [], out_method = ''error'', out_tokens = 0,
      out_error = Some (''URL error: '' @ reason)\<rparr>"
| "handle_exn (OtherError msg) =
     \<lparr>out_text = [], out_method = ''error'', out_tokens = 0,
      out_error = Some (take 100 msg)\<rparr>"

definition fetch_full_text :: "env \<Rightarrow> string \<Rightarrow> int \<Rightarrow> fetch_outcome" where
  "fetch_full_text E url max_chars =
     (let domain = get_domain E url
      in if domain \<in> set SKIP_DOMAINS
         then \<lparr>out_text = [], out_method = ''skipped'', out_tokens = 0,
               out_error = Some (''domain '' @ domain @ '' in skip list'')\<rparr>
         else (case fetch_try E url max_chars of
                 Inl e \<Rightarrow> handle_exn e
               | Inr r \<Rightarrow> r))"

section \<open>Articles\<close>

text \<open>
  An Article is a dictionary read from JSON. The keys the script reads or writes are
  fields (\<open>None\<close> when the key is absent), typed as the data model types them: \<open>link\<close>
  and \<open>full_text\<close> strings, \<open>quality_score\<close> an integer. Every other key is kept in
  \<open>other_keys\<close>.
\<close>

record article =
  link :: "string option"
  quality_score :: "int option"
  full_text :: "string option"
  full_text_method :: "string option"
  full_text_tokens :: "int option"
  other_keys :: "(string \<times> string) list"

text \<open>Truthiness of \<open>a.get(key)\<close> for a string-valued key: absent and empty are false.\<close>

definition truthy :: "string option \<Rightarrow> bool" where
  "truthy v = (case v of None \<Rightarrow> False | Some s \<Rightarrow> s \<noteq> [])"

text \<open>\<open>a.get("link", "")\<close>.\<close>

definition get_link :: "article \<Rightarrow> string" where
  "get_link a = (case link a of None \<Rightarrow> [] | Some l \<Rightarrow> l)"

text \<open>\<open>a.get("quality_score", 0)\<close>.\<close>

definition get_score :: "article \<Rightarrow> int" where
  "get_score a = (case quality_score a of None \<Rightarrow> 0 | Some s \<Rightarrow> s)"

section \<open>Batch Selector\<close>

definition blog_domains :: "string list" where
  "blog_domains =
     [''simonwillison.net'', ''overreacted.io'', ''eli.thegreenplace.net'',
      ''matklad.github.io'', ''lucumr.pocoo.org'', ''devblogs.microsoft.com'',
      ''rachelbythebay.com'', ''xeiaso.net'', ''pluralistic.net'', ''lcamtuf.substack.com'',
      ''hillelwayne.com'', ''dynomight.net'', ''geoffreylitt.com'', ''fabiensanglard.net'',
      ''blog.cloudflare.com'', ''antirez.com'', ''paulgraham.com'', ''danluu.com'',
      ''latent.space'', ''www.latent.space'']"

text \<open>
  Lines 146 to 154. The second argument is the list \<open>eligible\<close> built so far.
  \<^verbatim>\<open>
  for a in articles:
      if a.get("full_text") or not a.get("link"):
          continue
      score = a.get("quality_score", 0)
      domain = get_domain(a.get("link", ""))
      if score >= min_score or (domain in blog_domains and score >= 3):
          eligible.append(a)
  \<close>
\<close>

fun eligible_loop :: "env \<Rightarrow> int \<Rightarrow> article list \<Rightarrow> article list \<Rightarrow> article list" where
  "eligible_loop E min_score [] eligible = eligible"
| "eligible_loop E min_score (a # as) eligible =
     (if truthy (full_text a) \<or> \<not> truthy (link a)
      then eligible_loop E min_score as eligible
      else (let score = get_score a;
                domain = get_domain E (get_link a)
            in if score \<ge> min_score \<or> (domain \<in> set blog_domains \<and> score \<ge> 3)
               then eligible_loop E min_score as (eligible @ [a])
               else eligible_loop E min_score as eligible))"

text \<open>
  Lines 156 to 162. \<open>a["link"]\<close> is read on eligible articles only, where the key is
  present (lemma \<open>eligible_loop_link\<close>), so it equals \<open>a.get("link", "")\<close> there.
  \<^verbatim>\<open>
  for a in eligible:
      url = a["link"]
      if url not in seen_urls:
          seen_urls[url] = a
          unique.append(a)
  \<close>
\<close>

fun unique_loop ::
  "article list \<Rightarrow> (string \<rightharpoonup> article) \<Rightarrow> article list \<Rightarrow> article list" where
  "unique_loop [] seen_urls unique = unique"
| "unique_loop (a # as) seen_urls unique =
     (let url = get_link a
      in if seen_urls url = None
         then unique_loop as (seen_urls(url \<mapsto> a)) (unique @ [a])
         else unique_loop as seen_urls unique)"

text \<open>
  Lines 164 and 165: \<open>list.sort\<close> is a stable ascending sort on the key, and so is
  \<open>sort_key\<close>; then the slice \<open>unique[:max_articles]\<close>.
\<close>

definition work_list :: "env \<Rightarrow> article list \<Rightarrow> int \<Rightarrow> int \<Rightarrow> article list" where
  "work_list E articles min_score max_articles =
     (let eligible = eligible_loop E min_score articles [];
          unique = unique_loop eligible Map.empty [];
          sorted_unique = sort_key (\<lambda>x. - get_score x) unique
      in py_take max_articles sorted_unique)"

section \<open>Enrichment Orchestrator\<close>

text \<open>
  \<open>as_completed\<close> yields every future once, in an order the script does not control.
  The schedule picks, at each step, which of the pending futures completes next; every
  order is the result of some schedule.
\<close>

fun as_completed :: "nat list \<Rightarrow> 'a list \<Rightarrow> 'a list" where
  "as_completed ks [] = []"
| "as_completed [] (x # xs) = x # xs"
| "as_completed (k # ks) (x # xs) =
     (x # xs) ! (k mod length (x # xs))
       # as_completed ks (take (k mod length (x # xs)) (x # xs)
                           @ drop (Suc (k mod length (x # xs))) (x # xs))"

text \<open>The running counters and the \<open>results\<close> dictionary of lines 173 and 174.\<close>

record tally =
  attempted :: int
  success :: int
  cf_count :: int
  results :: "string \<rightharpoonup> fetch_outcome"

text \<open>
  Lines 178 to 189, one completed future (its result and its URL) per step.
  \<^verbatim>\<open>
  attempted += 1
  results[url] = result
  if result["text"]:
      success += 1
      if result["method"] == "cf-markdown":
          cf_count += 1
  \<close>
\<close>

fun collect :: "(fetch_outcome \<times> string) list \<Rightarrow> tally \<Rightarrow> tally" where
  "collect [] t = t"
| "collect ((result, url) # fs) t =
     (let t1 = t\<lparr>attempted := attempted t + 1, results := (results t)(url \<mapsto> result)\<rparr>;
          t2 = (if out_text result \<noteq> []
                then (let t' = t1\<lparr>success := success t1 + 1\<rparr>
                      in if out_method result = ''cf-markdown''
                         then t'\<lparr>cf_count := cf_count t' + 1\<rparr> else t')
                else t1)
      in collect fs t2)"

text \<open>
  Lines 191 to 197, for one article.
  \<^verbatim>\<open>
  url = a.get("link", "")
  if url in results and results[url]["text"]:
      r = results[url]
      a["full_text"] = r["text"]
      a["full_text_method"] = r["method"]
      a["full_text_tokens"] = r["tokens"]
  \<close>
\<close>

definition apply_result :: "(string \<rightharpoonup> fetch_outcome) \<Rightarrow> article \<Rightarrow> article" where
  "apply_result res a =
     (let url = get_link a
      in case res url of
           None \<Rightarrow> a
         | Some r \<Rightarrow>
             if out_text r \<noteq> []
             then a\<lparr>full_text := Some (out_text r),
                    full_text_method := Some (out_method r),
                    full_text_tokens := Some (out_tokens r)\<rparr>
             else a)"

text \<open>
  What a run of \<open>enrich_articles\<close> leaves behind: the candidate collection after the
  in-place updates, the returned triple, and the URLs submitted to the pool.
\<close>

record enrich_result =
  articles_after :: "article list"
  counters :: "int \<times> int \<times> int"
  dispatched :: "string list"

text \<open>
  Each future is the pair of the fetch's outcome and its URL. The WorkList holds no
  link twice, so every URL is fetched once in a run and the network is a function of it.
\<close>

definition enrich_articles ::
  "env \<Rightarrow> article list \<Rightarrow> int \<Rightarrow> int \<Rightarrow> int \<Rightarrow> enrich_result" where
  "enrich_articles E articles min_score max_articles max_chars =
     (let to_fetch = work_list E articles min_score max_articles
      in if to_fetch = []
         then \<lparr>articles_after = articles, counters = (0, 0, 0), dispatched = []\<rparr>
         else (let futures = map (\<lambda>a. (fetch_full_text E (get_link a) max_chars, get_link a)) to_fetch;
                   t = collect (as_completed (schedule E) futures)
                         \<lparr>attempted = 0, success = 0, cf_count = 0, results = Map.empty\<rparr>
               in \<lparr>articles_after = map (apply_result (results t)) articles,
                   counters = (attempted t, success t, cf_count t),
                   dispatched = map snd futures\<rparr>))"

section \<open>A concrete environment\<close>

text \<open>
  For evaluating the definitions on concrete inputs: a model of the standard library's
  \<open>urlsplit\<close> as far as the network location goes (leading control characters and
  spaces stripped, tab, carriage return and line feed removed, the scheme split off, the
  location read after \<open>//\<close> up to the first of \<open>/\<close>, \<open>?\<close>, \<open>#\<close>, and \<open>ValueError\<close>
  on an unbalanced bracket).
\<close>

definition scheme_char :: "char \<Rightarrow> bool" where
  "scheme_char c =
     (let n = (of_char c :: nat)
      in (97 \<le> n \<and> n \<le> 122) \<or> (65 \<le> n \<and> n \<le> 90) \<or> (48 \<le> n \<and> n \<le> 57)
         \<or> c = CHR ''+'' \<or> c = CHR ''-'' \<or> c = CHR ''.'')"

definition ascii_alpha :: "char \<Rightarrow> bool" where
  "ascii_alpha c =
     (let n = (of_char c :: nat) in (97 \<le> n \<and> n \<le> 122) \<or> (65 \<le> n \<and> n \<le> 90))"

definition strip_scheme :: "string \<Rightarrow> string" where
  "strip_scheme url =
     (let pre = takeWhile (\<lambda>c. c \<noteq> CHR '':'') url
      in if pre \<noteq> [] \<and> length pre < length url \<and> ascii_alpha (hd url) \<and> list_all scheme_char pre
         then drop (Suc (length pre)) url else url)"

definition urlsplit_netloc :: "string \<Rightarrow> exn + string" where
  "urlsplit_netloc url0 =
     (let url1 = dropWhile (\<lambda>c. (of_char c :: nat) \<le> 32) url0;
          url2 = filter (\<lambda>c. (of_char c :: nat) \<notin> {9, 10, 13}) url1;
          url = strip_scheme url2
      in if take 2 url = ''//''
         then (let netloc = takeWhile (\<lambda>c. c \<notin> set ''/?#'') (drop 2 url)
               in if (CHR ''['' \<in> set netloc) \<noteq> (CHR '']'' \<in> set netloc)
                  then Inl (OtherError ''Invalid IPv6 URL'')
                  else Inr netloc)
         else Inr [])"

text \<open>Bytes below 128 decode to the character of the same code, as in UTF-8.\<close>

definition decode_ascii :: "byte list \<Rightarrow> string" where
  "decode_ascii bs = map (\<lambda>b. char_of (unat b)) bs"

definition encode_ascii :: "string \<Rightarrow> byte list" where
  "encode_ascii s = map (\<lambda>c. of_nat (of_char c)) s"

text \<open>
  An environment is then fixed by what the network answers; bodies are not compressed,
  the extractor returns the body as it is, and futures complete in submission order.
\<close>

definition env_of :: "(string \<Rightarrow> exn + response) \<Rightarrow> env" where
  "env_of net =
     \<lparr>urlparse_netloc = urlsplit_netloc, urlopen = net,
      gzip_decompress = (\<lambda>raw. Inl (OtherError ''Not a gzipped file'')),
      decode_utf8 = decode_ascii, extract_readable_text = (\<lambda>html. html),
      schedule = []\<rparr>"

text \<open>
  Sample networks: a site that answers every request with a markdown document, and a
  site where every request raises.
\<close>

definition markdown_site :: "string \<Rightarrow> string \<Rightarrow> exn + response" where
  "markdown_site md url =
     Inr \<lparr>content_type = Some ''text/markdown; charset=utf-8'', markdown_tokens = None,
          body = encode_ascii md\<rparr>"

definition failing_site :: "exn \<Rightarrow> string \<Rightarrow> exn + response" where
  "failing_site e url = Inl e"

text \<open>What \<open>str(e.reason)\<close> reads when the server's certificate chain cannot be verified.\<close>

definition ssl_reason :: string where
  "ssl_reason = ''[SSL: CERTIFICATE_VERIFY_FAILED] certificate verify failed: unable to get local issuer certificate (_ssl.c:1007)''"

text \<open>A sample article with a link and a score and nothing else.\<close>

definition plain_article :: "string \<Rightarrow> int \<Rightarrow> article" where
  "plain_article l s =
     \<lparr>link = Some l, quality_score = Some s, full_text = None, full_text_method = None,
      full_text_tokens = None, other_keys = []\<rparr>"

text \<open>
  Sample candidate collections: two articles with the same link, the second below every
  threshold; and three articles, the last two with the same link.
\<close>

definition dup_articles :: "article list" where
  "dup_articles =
     [plain_article ''https://example.org/post'' 12,
      plain_article ''https://example.org/post'' 2]"

definition ranked_articles :: "article list" where
  "ranked_articles =
     [plain_article ''https://example.org/top'' 20,
      plain_article ''https://example.org/post'' 12,
      plain_article ''https://example.org/post'' 11]"

text \<open>
  The domain of a host in the words of the spec (4.1), for comparison with what
  \<open>get_domain\<close> computes: the host lowercased, with a leading \<open>www.\<close> prefix removed
  when present and unchanged otherwise.
\<close>

definition domain_per_spec :: "string \<Rightarrow> string" where
  "domain_per_spec host =
     (let h = py_lower host in if prefix ''www.'' h then drop 4 h else h)"

section \<open>Properties of the Content Fetcher\<close>

lemma handle_exn_shape:
  "out_text (handle_exn e) = [] \<and> out_method (handle_exn e) = ''error'' \<and> out_tokens (handle_exn e) = 0"
  by (cases e) simp_all

lemma handle_exn_other_length:
  "\<exists>m. out_error (handle_exn (OtherError msg)) = Some m \<and> length m \<le> 100"
  by simp

lemma py_take_pos_Nil: "0 < n \<Longrightarrow> py_take n xs = [] \<longleftrightarrow> xs = []"
  by (auto simp: py_take_def)

lemma py_int_value: "py_int s = Inr v \<Longrightarrow> v = int (digits_value s)"
  by (auto simp: py_int_def split: if_splits)

text \<open>
  C4 (Domain Classifier). The claim: \<open>get_domain\<close> returns the host lowercased with
  exactly a leading \<open>www.\<close> prefix removed. \<open>lstrip("www.")\<close> removes every leading
  \<open>w\<close> and \<open>.\<close> instead, so the host \<open>www.wired.com\<close> loses the first letter of
  its name as well.
\<close>

theorem get_domain_strips_letters:
  "get_domain (env_of net) ''https://www.wired.com/story/ai'' = ''ired.com''"
  by (simp add: get_domain_def env_of_def urlsplit_netloc_def strip_scheme_def
      scheme_char_def ascii_alpha_def py_lstrip_def py_lower_def py_lower_char_def Let_def)

text \<open>
  C2 (Content Fetcher, failures). The claim: every failure becomes an outcome with method
  \<open>error\<close> and a description of at most 100 characters. Only the last handler
  truncates (lemma \<open>handle_exn_other_length\<close>); the \<open>URLError\<close> handler prints
  the whole reason, and a failed certificate check gives a description of 123 characters.
\<close>

theorem url_error_not_truncated:
  "fetch_full_text (env_of (failing_site (URLError ssl_reason))) ''https://example.org/post'' 2000
     = \<lparr>out_text = [], out_method = ''error'', out_tokens = 0,
        out_error = Some (''URL error: '' @ ssl_reason)\<rparr>
   \<and> length (''URL error: '' @ ssl_reason) = 123"
  by (simp add: fetch_full_text_def fetch_try_def fetch_body_def failing_site_def
      get_domain_def env_of_def urlsplit_netloc_def strip_scheme_def SKIP_DOMAINS_def
      scheme_char_def ascii_alpha_def py_lstrip_def py_lower_def py_lower_char_def Let_def
      ssl_reason_def)

text \<open>
  C1 (FetchOutcome, text and method). The claim: the text is empty if and only if the
  method is \<open>skipped\<close>, \<open>html-too-short\<close> or \<open>error\<close>. A markdown response with an
  empty body gives empty text with method \<open>cf-markdown\<close>.
\<close>

theorem text_empty_markdown_counterexample:
  "\<not> (out_text (fetch_full_text (env_of (markdown_site [])) ''https://example.org/post'' 2000) = []
       \<longleftrightarrow> out_method (fetch_full_text (env_of (markdown_site [])) ''https://example.org/post'' 2000)
             \<in> {''skipped'', ''html-too-short'', ''error''})"
  by code_simp

text \<open>
  C1, as the code has it. For every URL and budget, a method of \<open>skipped\<close>,
  \<open>html-too-short\<close> or \<open>error\<close> implies empty text. For every budget of at least 1,
  the text is empty if and only if the method is one of these three, or the method is
  \<open>cf-markdown\<close> and the decoded response body is empty.
\<close>

theorem text_empty_iff:
  "(out_method (fetch_full_text E url max_chars) \<in> {''skipped'', ''html-too-short'', ''error''}
      \<longrightarrow> out_text (fetch_full_text E url max_chars) = [])
   \<and> (0 < max_chars \<longrightarrow>
        (out_text (fetch_full_text E url max_chars) = [] \<longleftrightarrow>
           out_method (fetch_full_text E url max_chars) \<in> {''skipped'', ''html-too-short'', ''error''}
           \<or> (out_method (fetch_full_text E url max_chars) = ''cf-markdown''
               \<and> (\<exists>ctype token_header. fetch_body E url = Inr (ctype, token_header, [])))))"
  by (auto simp: fetch_full_text_def fetch_try_def Let_def handle_exn_shape py_take_pos_Nil
      split: sum.splits prod.splits if_splits)

theorem text_empty_iff_witness:
  "out_method (fetch_full_text (env_of (markdown_site ''Hi'')) ''https://reddit.com/r/news'' 2000)
     \<in> {''skipped'', ''html-too-short'', ''error''}
   \<and> out_text (fetch_full_text (env_of (markdown_site ''Hi'')) ''https://reddit.com/r/news'' 2000) = []
   \<and> (0::int) < 2000
   \<and> out_method (fetch_full_text (env_of (markdown_site ''Hi'')) ''https://example.org/post'' 2000)
       = ''cf-markdown''
   \<and> out_text (fetch_full_text (env_of (markdown_site ''Hi'')) ''https://example.org/post'' 2000) \<noteq> []"
proof -
  have m: "out_method (fetch_full_text (env_of (markdown_site ''Hi'')) ''https://reddit.com/r/news'' 2000)
     \<in> {''skipped'', ''html-too-short'', ''error''}"
    by code_simp
  have t: "out_text (fetch_full_text (env_of (markdown_site ''Hi'')) ''https://reddit.com/r/news'' 2000) = []"
    using text_empty_iff [of "env_of (markdown_site ''Hi'')" "''https://reddit.com/r/news''" 2000] m
    by blast
  have c: "out_method (fetch_full_text (env_of (markdown_site ''Hi'')) ''https://example.org/post'' 2000)
       = ''cf-markdown''"
    by code_simp
  have b: "fetch_body (env_of (markdown_site ''Hi'')) ''https://example.org/post''
       = Inr (''text/markdown; charset=utf-8'', [], ''Hi'')"
    by code_simp
  have n: "out_text (fetch_full_text (env_of (markdown_site ''Hi'')) ''https://example.org/post'' 2000) \<noteq> []"
    using text_empty_iff [of "env_of (markdown_site ''Hi'')" "''https://example.org/post''" 2000] c b
    by simp
  show ?thesis using m t c n by simp
qed

text \<open>
  C5 (FetchOutcome, tokens). The claim: tokens is 0 exactly when the text is empty, the
  one exception being a server-declared count on the markdown path with empty text. A
  markdown body of two characters and no token header gives the text \<open>Hi\<close> with 0
  tokens, which is neither.
\<close>

theorem tokens_zero_counterexample:
  "\<not> ((out_tokens (fetch_full_text (env_of (markdown_site ''Hi'')) ''https://example.org/post'' 2000) = 0
        \<longleftrightarrow> out_text (fetch_full_text (env_of (markdown_site ''Hi'')) ''https://example.org/post'' 2000) = [])
       \<or> (out_method (fetch_full_text (env_of (markdown_site ''Hi'')) ''https://example.org/post'' 2000) = ''cf-markdown''
          \<and> out_text (fetch_full_text (env_of (markdown_site ''Hi'')) ''https://example.org/post'' 2000) = []))"
  by code_simp

text \<open>
  C5, as the code has it. An outcome whose method is not \<open>cf-markdown\<close> has tokens equal
  to the length of its text divided by 4 (rounded down), so 0 whenever the text is empty
  and also when it has one to three characters. A \<open>cf-markdown\<close> outcome has the text
  of the decoded body cut to the budget, and reports the server-declared count when the
  token header is numeric and the length of the whole decoded body divided by 4
  otherwise, whatever the text.
\<close>

theorem tokens_shape:
  "(out_method (fetch_full_text E url max_chars) \<noteq> ''cf-markdown''
      \<longrightarrow> out_tokens (fetch_full_text E url max_chars)
            = int (length (out_text (fetch_full_text E url max_chars))) div 4)
   \<and> (out_method (fetch_full_text E url max_chars) = ''cf-markdown''
      \<longrightarrow> (\<exists>ctype token_header txt.
             fetch_body E url = Inr (ctype, token_header, txt)
             \<and> out_text (fetch_full_text E url max_chars) = py_take max_chars txt
             \<and> out_tokens (fetch_full_text E url max_chars)
                 = (if py_isdigit token_header then int (digits_value token_header)
                    else int (length txt) div 4)))"
  by (auto simp: fetch_full_text_def fetch_try_def Let_def handle_exn_shape
      split: sum.splits prod.splits if_splits dest: py_int_value)

theorem tokens_shape_witness:
  "out_method (fetch_full_text (env_of (failing_site (HTTPError 404))) ''https://example.org/post'' 2000)
     \<noteq> ''cf-markdown''
   \<and> out_tokens (fetch_full_text (env_of (failing_site (HTTPError 404))) ''https://example.org/post'' 2000) = 0
   \<and> out_method (fetch_full_text (env_of (markdown_site ''Hello, world'')) ''https://example.org/post'' 5)
       = ''cf-markdown''
   \<and> out_text (fetch_full_text (env_of (markdown_site ''Hello, world'')) ''https://example.org/post'' 5)
       = ''Hello''
   \<and> out_tokens (fetch_full_text (env_of (markdown_site ''Hello, world'')) ''https://example.org/post'' 5) = 3"
proof -
  have m: "out_method (fetch_full_text (env_of (failing_site (HTTPError 404))) ''https://example.org/post'' 2000)
     \<noteq> ''cf-markdown''"
    by code_simp
  have e: "out_text (fetch_full_text (env_of (failing_site (HTTPError 404))) ''https://example.org/post'' 2000) = []"
    by code_simp
  have t: "out_tokens (fetch_full_text (env_of (failing_site (HTTPError 404))) ''https://example.org/post'' 2000) = 0"
    using tokens_shape [of "env_of (failing_site (HTTPError 404))" "''https://example.org/post''" 2000] m e
    by simp
  have c: "out_method (fetch_full_text (env_of (markdown_site ''Hello, world'')) ''https://example.org/post'' 5)
       = ''cf-markdown''"
    by code_simp
  have b: "fetch_body (env_of (markdown_site ''Hello, world'')) ''https://example.org/post''
       = Inr (''text/markdown; charset=utf-8'', [], ''Hello, world'')"
    by code_simp
  have d: "\<not> py_isdigit []" by (simp add: py_isdigit_def)
  have x: "out_text (fetch_full_text (env_of (markdown_site ''Hello, world'')) ''https://example.org/post'' 5)
       = ''Hello''
   \<and> out_tokens (fetch_full_text (env_of (markdown_site ''Hello, world'')) ''https://example.org/post'' 5) = 3"
    using tokens_shape [of "env_of (markdown_site ''Hello, world'')" "''https://example.org/post''" 5] c b d
    by (simp add: py_take_def)
  show ?thesis using m t c x by simp
qed

section \<open>Properties of the Batch Selector\<close>

lemma eligible_loop_filter:
  "eligible_loop E m as acc =
     acc @ filter (\<lambda>a. truthy (link a) \<and> \<not> truthy (full_text a)
                       \<and> (m \<le> get_score a \<or> (get_domain E (get_link a) \<in> set blog_domains \<and> 3 \<le> get_score a))) as"
  by (induction as arbitrary: acc) (auto simp: Let_def)

lemma eligible_loop_subseq: "subseq (eligible_loop E m as []) as"
  by (simp add: eligible_loop_filter)

lemma eligible_loop_link:
  "a \<in> set (eligible_loop E m as []) \<Longrightarrow> \<exists>l. link a = Some l \<and> l \<noteq> [] \<and> get_link a = l"
  by (auto simp: eligible_loop_filter truthy_def get_link_def split: option.splits)

lemma unique_loop_filter_link:
  "filter (\<lambda>b. get_link b = l) (unique_loop as seen acc) =
     filter (\<lambda>b. get_link b = l) acc
       @ (if seen l = None then take 1 (filter (\<lambda>b. get_link b = l) as) else [])"
  by (induction as arbitrary: seen acc) (auto simp: Let_def)

lemma unique_loop_subseq:
  "\<exists>ys. unique_loop as seen acc = acc @ ys \<and> subseq ys as"
proof (induction as arbitrary: seen acc)
  case Nil
  then show ?case by simp
next
  case (Cons a as)
  show ?case
  proof (cases "seen (get_link a) = None")
    case True
    from Cons [of "seen(get_link a \<mapsto> a)" "acc @ [a]"]
    obtain ys where "unique_loop as (seen(get_link a \<mapsto> a)) (acc @ [a]) = (acc @ [a]) @ ys" "subseq ys as"
      by blast
    then show ?thesis using True by (auto simp: Let_def intro!: exI [of _ "a # ys"])
  next
    case False
    from Cons [of seen acc]
    obtain ys where "unique_loop as seen acc = acc @ ys" "subseq ys as" by blast
    then show ?thesis using False by (auto simp: Let_def intro!: exI [of _ ys])
  qed
qed

lemma unique_loop_subseq_empty: "subseq (unique_loop as Map.empty []) as"
  using unique_loop_subseq [of as Map.empty "[]"] by auto

lemma unique_loop_distinct:
  "distinct (map get_link acc) \<Longrightarrow> get_link ` set acc \<subseteq> dom seen
     \<Longrightarrow> distinct (map get_link (unique_loop as seen acc))"
proof (induction as arbitrary: seen acc)
  case Nil
  then show ?case by simp
next
  case (Cons a as)
  show ?case
  proof (cases "seen (get_link a) = None")
    case True
    have eq: "unique_loop (a # as) seen acc = unique_loop as (seen(get_link a \<mapsto> a)) (acc @ [a])"
      using True by (simp add: Let_def)
    have "get_link a \<notin> get_link ` set acc" using True Cons.prems(2) by auto
    then have d: "distinct (map get_link (acc @ [a]))" using Cons.prems(1) by auto
    have s: "get_link ` set (acc @ [a]) \<subseteq> dom (seen(get_link a \<mapsto> a))"
      using Cons.prems(2) by auto
    show ?thesis unfolding eq by (rule Cons.IH [OF d s])
  next
    case False
    then have eq: "unique_loop (a # as) seen acc = unique_loop as seen acc"
      by (auto simp: Let_def)
    show ?thesis unfolding eq by (rule Cons.IH [OF Cons.prems])
  qed
qed

lemma unique_loop_links:
  "get_link ` set (unique_loop as seen acc) = get_link ` set acc \<union> (get_link ` set as - dom seen)"
proof (induction as arbitrary: seen acc)
  case Nil
  then show ?case by simp
next
  case (Cons a as)
  show ?case
  proof (cases "seen (get_link a) = None")
    case True
    have eq: "unique_loop (a # as) seen acc = unique_loop as (seen(get_link a \<mapsto> a)) (acc @ [a])"
      using True by (simp add: Let_def)
    have ih: "get_link ` set (unique_loop as (seen(get_link a \<mapsto> a)) (acc @ [a]))
        = get_link ` set (acc @ [a]) \<union> (get_link ` set as - dom (seen(get_link a \<mapsto> a)))"
      by (rule Cons.IH)
    have n: "get_link a \<notin> dom seen" using True by (simp add: domIff)
    show ?thesis unfolding eq ih using n by auto
  next
    case False
    then have eq: "unique_loop (a # as) seen acc = unique_loop as seen acc"
      by (auto simp: Let_def)
    have ih: "get_link ` set (unique_loop as seen acc)
        = get_link ` set acc \<union> (get_link ` set as - dom seen)"
      by (rule Cons.IH)
    have n: "get_link a \<in> dom seen" using False by (simp add: domIff)
    show ?thesis unfolding eq ih using n by auto
  qed
qed

lemma unique_loop_length:
  "length (unique_loop as Map.empty []) = length (remdups (map get_link as))"
proof -
  let ?U = "unique_loop as Map.empty []"
  have d: "distinct (map get_link ?U)"
    by (rule unique_loop_distinct) simp_all
  have "length ?U = length (map get_link ?U)" by simp
  also have "\<dots> = card (set (map get_link ?U))"
    using distinct_card [OF d] by simp
  also have "set (map get_link ?U) = get_link ` set as"
    using unique_loop_links [of as Map.empty "[]"] by simp
  also have "card (get_link ` set as) = length (remdups (map get_link as))"
    by (simp add: length_remdups_card_conv)
  finally show ?thesis .
qed

lemma py_take_prefix: "prefix (py_take n xs) xs"
  by (simp add: py_take_def take_is_prefix)

lemma py_take_all: "int (length xs) \<le> n \<Longrightarrow> py_take n xs = xs"
  by (auto simp: py_take_def)

lemma py_take_length: "0 \<le> n \<Longrightarrow> int (length (py_take n xs)) \<le> n"
  by (auto simp: py_take_def)

lemma prefix_short:
  assumes "prefix xs ys" "length ys \<le> 1"
  shows "xs = [] \<or> xs = ys"
  using assms by (cases ys) (auto simp: prefix_Cons)

lemma sort_key_short: "length xs \<le> 1 \<Longrightarrow> sort_key f xs = xs"
  by (cases xs) auto

lemma work_list_unfold:
  "work_list E articles min_score max_articles =
     py_take max_articles
       (sort_key (\<lambda>x. - get_score x) (unique_loop (eligible_loop E min_score articles []) Map.empty []))"
  by (simp add: work_list_def Let_def)

lemma sorted_wrt_prefix: "prefix xs ys \<Longrightarrow> sorted_wrt R ys \<Longrightarrow> sorted_wrt R xs"
  by (auto simp: prefix_def sorted_wrt_append)

text \<open>
  C8 (eligibility). The claim: an Article is eligible if and only if it has a non-empty
  link, no existing full text, and either a score of at least \<open>min_score\<close>, or a
  domain in the blog allow-list and a score of at least 3. The loop filters by this
  predicate with \<open>get_domain\<close> for the domain (lemma \<open>eligible_loop_filter\<close>), and
  \<open>get_domain\<close> strips leading letters \<open>w\<close> from the host. An article at the host
  \<open>wdanluu.com\<close>, whose domain is not in the allow-list, with score 3 and
  \<open>min_score\<close> 10, is selected as if it were at \<open>danluu.com\<close>.
\<close>

theorem eligible_outside_allow_list:
  "urlparse_netloc (env_of (markdown_site ''Hi'')) ''https://wdanluu.com/notes'' = Inr ''wdanluu.com''
   \<and> domain_per_spec ''wdanluu.com'' = ''wdanluu.com''
   \<and> domain_per_spec ''wdanluu.com'' \<notin> set blog_domains
   \<and> get_score (plain_article ''https://wdanluu.com/notes'' 3) < 10
   \<and> get_domain (env_of (markdown_site ''Hi'')) ''https://wdanluu.com/notes'' = ''danluu.com''
   \<and> eligible_loop (env_of (markdown_site ''Hi'')) 10
         [plain_article ''https://wdanluu.com/notes'' 3] []
       = [plain_article ''https://wdanluu.com/notes'' 3]"
  by code_simp

text \<open>
  C6 (WorkList, size and order). The claim: for every candidate collection and every
  \<open>max_articles\<close> the WorkList has at most \<open>max_articles\<close> entries. The slice
  \<open>unique[:max_articles]\<close> with a negative bound drops entries from the end instead:
  with \<open>max_articles = -1\<close> and two distinct eligible links the WorkList has one entry.
\<close>

theorem work_list_negative_cap_counterexample:
  "\<not> int (length (work_list (env_of (markdown_site ''Hi'')) ranked_articles 10 (- 1))) \<le> - 1"
  by code_simp

text \<open>
  C6, as the code has it. For every candidate collection and every \<open>max_articles\<close> that
  is not negative, the WorkList has at most \<open>max_articles\<close> entries; for every
  \<open>max_articles\<close>, the WorkList is sorted by non-increasing score, and the entries of
  each one score stand in the order they have in the candidate collection.
\<close>

theorem work_list_sorted_stable:
  "(0 \<le> max_articles \<longrightarrow>
      int (length (work_list E articles min_score max_articles)) \<le> max_articles)
   \<and> sorted_wrt (\<lambda>a b. get_score b \<le> get_score a) (work_list E articles min_score max_articles)
   \<and> (\<forall>k. subseq (filter (\<lambda>a. get_score a = k) (work_list E articles min_score max_articles))
                  articles)"
proof -
  let ?el = "eligible_loop E min_score articles []"
  let ?U = "unique_loop ?el Map.empty []"
  let ?S = "sort_key (\<lambda>x. - get_score x) ?U"
  let ?W = "work_list E articles min_score max_articles"
  have W: "?W = py_take max_articles ?S" by (rule work_list_unfold)
  have len: "0 \<le> max_articles \<longrightarrow> int (length ?W) \<le> max_articles"
    unfolding W by (simp add: py_take_length)
  have "sorted (map (\<lambda>x. - get_score x) ?S)" by (rule sorted_sort_key)
  then have sS: "sorted_wrt (\<lambda>a b. get_score b \<le> get_score a) ?S"
    by (simp add: sorted_map)
  have srt: "sorted_wrt (\<lambda>a b. get_score b \<le> get_score a) ?W"
    unfolding W by (rule sorted_wrt_prefix [OF py_take_prefix sS])
  have stab: "subseq (filter (\<lambda>a. get_score a = k) ?W) articles" for k
  proof -
    have st: "filter (\<lambda>a. get_score a = k) ?S = filter (\<lambda>a. get_score a = k) ?U"
      using sort_key_stable [of "\<lambda>x. - get_score x" "- k" ?U] by simp
    have "prefix (filter (\<lambda>a. get_score a = k) ?W) (filter (\<lambda>a. get_score a = k) ?S)"
      unfolding W by (rule filter_mono_prefix) (rule py_take_prefix)
    then have "prefix (filter (\<lambda>a. get_score a = k) ?W) (filter (\<lambda>a. get_score a = k) ?U)"
      by (simp only: st)
    then have "subseq (filter (\<lambda>a. get_score a = k) ?W) (filter (\<lambda>a. get_score a = k) ?U)"
      by (rule prefix_imp_subseq)
    then have "subseq (filter (\<lambda>a. get_score a = k) ?W) ?U"
      by (rule subseq_order.trans) simp
    then have "subseq (filter (\<lambda>a. get_score a = k) ?W) ?el"
      by (rule subseq_order.trans) (rule unique_loop_subseq_empty)
    then show ?thesis
      by (rule subseq_order.trans) (rule eligible_loop_subseq)
  qed
  show ?thesis using len srt stab by blast
qed

theorem work_list_sorted_stable_witness:
  "(0::int) \<le> 2
   \<and> int (length (work_list (env_of (markdown_site ''Hi'')) ranked_articles 10 2)) \<le> 2
   \<and> sorted_wrt (\<lambda>a b. get_score b \<le> get_score a)
        (work_list (env_of (markdown_site ''Hi'')) ranked_articles 10 2)"
  using work_list_sorted_stable [of 2 "env_of (markdown_site ''Hi'')" ranked_articles 10]
  by simp

text \<open>
  C9 (deduplication). The claim: of the eligible Articles that share a link, the WorkList
  contains exactly one, the first. The cut to \<open>max_articles\<close> comes after the
  deduplication, so the WorkList can contain none of them: with a cap of 1, an article of
  score 20 takes the only place and neither of the two articles sharing a link is kept.
\<close>

theorem work_list_truncated_counterexample:
  "ranked_articles ! 1 \<in> set (eligible_loop (env_of (markdown_site ''Hi'')) 10 ranked_articles [])
   \<and> ranked_articles ! 2 \<in> set (eligible_loop (env_of (markdown_site ''Hi'')) 10 ranked_articles [])
   \<and> get_link (ranked_articles ! 1) = get_link (ranked_articles ! 2)
   \<and> ranked_articles ! 1 \<notin> set (work_list (env_of (markdown_site ''Hi'')) ranked_articles 10 1)
   \<and> ranked_articles ! 2 \<notin> set (work_list (env_of (markdown_site ''Hi'')) ranked_articles 10 1)"
  by code_simp

text \<open>
  C9, as the code has it. For every link, the WorkList entries with that link are either
  none, or exactly the first eligible Article with that link in the order of the
  collection; they are exactly that first one whenever the number of distinct eligible
  links is at most \<open>max_articles\<close>, so that nothing is cut.
\<close>

theorem work_list_dedup:
  "(filter (\<lambda>b. get_link b = l) (work_list E articles min_score max_articles) = []
    \<or> filter (\<lambda>b. get_link b = l) (work_list E articles min_score max_articles)
        = take 1 (filter (\<lambda>b. get_link b = l) (eligible_loop E min_score articles [])))
   \<and> (int (length (remdups (map get_link (eligible_loop E min_score articles [])))) \<le> max_articles
      \<longrightarrow> filter (\<lambda>b. get_link b = l) (work_list E articles min_score max_articles)
            = take 1 (filter (\<lambda>b. get_link b = l) (eligible_loop E min_score articles [])))"
proof -
  let ?el = "eligible_loop E min_score articles []"
  let ?U = "unique_loop ?el Map.empty []"
  let ?S = "sort_key (\<lambda>x. - get_score x) ?U"
  let ?W = "work_list E articles min_score max_articles"
  let ?P = "\<lambda>b. get_link b = l"
  let ?F = "take 1 (filter ?P ?el)"
  have W: "?W = py_take max_articles ?S" by (rule work_list_unfold)
  have U: "filter ?P ?U = ?F"
    using unique_loop_filter_link [of l ?el Map.empty "[]"] by simp
  have "filter ?P ?S = sort_key (\<lambda>x. - get_score x) (filter ?P ?U)" by (rule filter_sort)
  also have "\<dots> = ?F" unfolding U by (rule sort_key_short) simp
  finally have S: "filter ?P ?S = ?F" .
  have "prefix (filter ?P ?W) (filter ?P ?S)"
    unfolding W by (rule filter_mono_prefix) (rule py_take_prefix)
  then have "prefix (filter ?P ?W) ?F" unfolding S .
  then have one: "filter ?P ?W = [] \<or> filter ?P ?W = ?F"
    by (rule prefix_short) simp
  have all: "filter ?P ?W = ?F"
    if "int (length (remdups (map get_link ?el))) \<le> max_articles"
  proof -
    have "int (length ?S) \<le> max_articles" using that by (simp add: unique_loop_length)
    then have "?W = ?S" unfolding W by (rule py_take_all)
    then show ?thesis using S by simp
  qed
  show ?thesis using one all by blast
qed

theorem work_list_dedup_witness:
  "int (length (remdups (map get_link
        (eligible_loop (env_of (markdown_site ''Hi'')) 10 ranked_articles [])))) \<le> 15
   \<and> filter (\<lambda>b. get_link b = ''https://example.org/post'')
        (work_list (env_of (markdown_site ''Hi'')) ranked_articles 10 15)
       = [plain_article ''https://example.org/post'' 12]"
proof -
  have h: "int (length (remdups (map get_link
        (eligible_loop (env_of (markdown_site ''Hi'')) 10 ranked_articles [])))) \<le> 15"
    by code_simp
  have e: "take 1 (filter (\<lambda>b. get_link b = ''https://example.org/post'')
        (eligible_loop (env_of (markdown_site ''Hi'')) 10 ranked_articles []))
      = [plain_article ''https://example.org/post'' 12]"
    by code_simp
  show ?thesis
    using h e
      work_list_dedup [of "''https://example.org/post''" "env_of (markdown_site ''Hi'')"
        ranked_articles 10 15]
    by simp
qed

section \<open>Properties of the Enrichment Orchestrator\<close>

lemma as_completed_mset: "mset (as_completed ks xs) = mset xs"
proof (induction ks xs rule: as_completed.induct)
  case (3 k ks x xs)
  let ?ys = "x # xs"
  let ?i = "k mod length ?ys"
  have i: "?i < length ?ys" by simp
  have "mset ?ys = mset (take ?i ?ys @ ?ys ! ?i # drop (Suc ?i) ?ys)"
    using id_take_nth_drop [OF i] by simp
  then show ?case using 3 by simp
qed simp_all

lemma as_completed_set: "set (as_completed ks xs) = set xs"
  using as_completed_mset [of ks xs] by (metis set_mset_mset)

lemma as_completed_length: "length (as_completed ks xs) = length xs"
  using as_completed_mset [of ks xs] by (metis size_mset)

lemma collect_Cons:
  "collect ((r, u) # fs) t =
     collect fs (t\<lparr>attempted := attempted t + 1,
                   results := (results t)(u \<mapsto> r),
                   success := success t + (if out_text r \<noteq> [] then 1 else 0),
                   cf_count := cf_count t
                     + (if out_text r \<noteq> [] \<and> out_method r = ''cf-markdown'' then 1 else 0)\<rparr>)"
  by (simp add: Let_def)

lemma collect_attempted: "attempted (collect fs t) = attempted t + int (length fs)"
proof (induction fs arbitrary: t)
  case Nil
  show ?case by simp
next
  case (Cons f fs)
  obtain r u where f: "f = (r, u)" by (cases f)
  show ?case unfolding f collect_Cons Cons.IH by simp
qed

lemma collect_counters:
  "0 \<le> cf_count t \<Longrightarrow> cf_count t \<le> success t \<Longrightarrow> success t \<le> attempted t
     \<Longrightarrow> 0 \<le> cf_count (collect fs t) \<and> cf_count (collect fs t) \<le> success (collect fs t)
         \<and> success (collect fs t) \<le> attempted (collect fs t)"
proof (induction fs arbitrary: t)
  case Nil
  then show ?case by simp
next
  case (Cons f fs)
  obtain r u where f: "f = (r, u)" by (cases f)
  show ?case unfolding f collect_Cons
    by (rule Cons.IH) (use Cons.prems in simp_all)
qed

lemma collect_results_from:
  "results (collect fs t) url = Some r \<Longrightarrow> results t url = Some r \<or> (r, url) \<in> set fs"
proof (induction fs arbitrary: t)
  case Nil
  then show ?case by simp
next
  case (Cons f fs)
  obtain r0 u where f: "f = (r0, u)" by (cases f)
  from Cons.prems have "results (collect fs (t\<lparr>attempted := attempted t + 1,
                   results := (results t)(u \<mapsto> r0),
                   success := success t + (if out_text r0 \<noteq> [] then 1 else 0),
                   cf_count := cf_count t
                     + (if out_text r0 \<noteq> [] \<and> out_method r0 = ''cf-markdown'' then 1 else 0)\<rparr>)) url = Some r"
    unfolding f collect_Cons .
  from Cons.IH [OF this] have "((results t)(u \<mapsto> r0)) url = Some r \<or> (r, url) \<in> set fs"
    by simp
  then show ?case unfolding f by (cases "url = u") auto
qed

lemma collect_results_keep:
  "url \<notin> snd ` set fs \<Longrightarrow> results (collect fs t) url = results t url"
proof (induction fs arbitrary: t)
  case Nil
  show ?case by simp
next
  case (Cons f fs)
  obtain r0 u where f: "f = (r0, u)" by (cases f)
  from Cons.prems f have n: "url \<notin> snd ` set fs" and ne: "url \<noteq> u" by auto
  show ?case unfolding f collect_Cons Cons.IH [OF n] using ne by simp
qed

lemma collect_results_of:
  "\<forall>f \<in> set fs. fst f = g (snd f) \<Longrightarrow> url \<in> snd ` set fs
     \<Longrightarrow> results (collect fs t) url = Some (g url)"
proof (induction fs arbitrary: t)
  case Nil
  then show ?case by simp
next
  case (Cons f fs)
  obtain r0 u where f: "f = (r0, u)" by (cases f)
  have all: "\<forall>f \<in> set fs. fst f = g (snd f)" using Cons.prems(1) by simp
  show ?case
  proof (cases "url \<in> snd ` set fs")
    case True
    show ?thesis unfolding f collect_Cons by (rule Cons.IH [OF all True])
  next
    case False
    from False Cons.prems f have "u = url" "r0 = g url" by auto
    then show ?thesis unfolding f collect_Cons collect_results_keep [OF False] by simp
  qed
qed

lemma apply_result_frame:
  "link (apply_result res a) = link a \<and> quality_score (apply_result res a) = quality_score a
   \<and> other_keys (apply_result res a) = other_keys a"
  by (simp add: apply_result_def Let_def split: option.splits)

text \<open>
  C7 (counters). For every run, \<open>cf_markdown \<le> success \<le> attempted\<close>, the counters
  are not negative, and \<open>attempted\<close> is the number of fetches dispatched, one per
  WorkList entry; when the WorkList is empty, the result is \<open>(0, 0, 0)\<close> and no fetch
  is dispatched.
\<close>

theorem counters_ordered:
  "0 \<le> snd (snd (counters (enrich_articles E articles min_score max_articles max_chars)))
   \<and> snd (snd (counters (enrich_articles E articles min_score max_articles max_chars)))
       \<le> fst (snd (counters (enrich_articles E articles min_score max_articles max_chars)))
   \<and> fst (snd (counters (enrich_articles E articles min_score max_articles max_chars)))
       \<le> fst (counters (enrich_articles E articles min_score max_articles max_chars))
   \<and> fst (counters (enrich_articles E articles min_score max_articles max_chars))
       = int (length (dispatched (enrich_articles E articles min_score max_articles max_chars)))
   \<and> dispatched (enrich_articles E articles min_score max_articles max_chars)
       = map get_link (work_list E articles min_score max_articles)
   \<and> (work_list E articles min_score max_articles = [] \<longrightarrow>
        counters (enrich_articles E articles min_score max_articles max_chars) = (0, 0, 0)
        \<and> dispatched (enrich_articles E articles min_score max_articles max_chars) = [])"
proof (cases "work_list E articles min_score max_articles = []")
  case True
  then show ?thesis by (simp add: enrich_articles_def)
next
  case False
  let ?t0 = "\<lparr>attempted = 0, success = 0, cf_count = 0, results = Map.empty\<rparr>"
  let ?fs = "as_completed (schedule E)
      (map (\<lambda>a. (fetch_full_text E (get_link a) max_chars, get_link a))
         (work_list E articles min_score max_articles))"
  have c: "0 \<le> cf_count (collect ?fs ?t0) \<and> cf_count (collect ?fs ?t0) \<le> success (collect ?fs ?t0)
         \<and> success (collect ?fs ?t0) \<le> attempted (collect ?fs ?t0)"
    by (rule collect_counters) simp_all
  have a: "attempted (collect ?fs ?t0) = int (length (work_list E articles min_score max_articles))"
    by (simp add: collect_attempted as_completed_length)
  show ?thesis using False c a by (simp add: enrich_articles_def Let_def comp_def)
qed

theorem counters_ordered_witness:
  "work_list (env_of (markdown_site ''Hi'')) dup_articles 50 15 = []
   \<and> counters (enrich_articles (env_of (markdown_site ''Hi'')) dup_articles 50 15 2000) = (0, 0, 0)
   \<and> dispatched (enrich_articles (env_of (markdown_site ''Hi'')) dup_articles 50 15 2000) = []"
proof -
  have h: "work_list (env_of (markdown_site ''Hi'')) dup_articles 50 15 = []"
    by code_simp
  show ?thesis
    using h counters_ordered [of "env_of (markdown_site ''Hi'')" dup_articles 50 15 2000]
    by simp
qed

text \<open>
  C10 (frame of the collection). \<open>enrich_articles\<close> neither adds nor removes Articles
  and keeps their order: the collection has the same length afterwards, and position by
  position the link, the score and every other key are what they were. Only
  \<open>full_text\<close>, \<open>full_text_method\<close> and \<open>full_text_tokens\<close> can differ.
\<close>

theorem enrich_frame:
  "length (articles_after (enrich_articles E articles min_score max_articles max_chars))
     = length articles
   \<and> map link (articles_after (enrich_articles E articles min_score max_articles max_chars))
       = map link articles
   \<and> map quality_score (articles_after (enrich_articles E articles min_score max_articles max_chars))
       = map quality_score articles
   \<and> map other_keys (articles_after (enrich_articles E articles min_score max_articles max_chars))
       = map other_keys articles"
proof (cases "work_list E articles min_score max_articles = []")
  case True
  then have "articles_after (enrich_articles E articles min_score max_articles max_chars) = articles"
    by (simp add: enrich_articles_def)
  then show ?thesis by simp
next
  case False
  let ?res = "results (collect (as_completed (schedule E)
      (map (\<lambda>a. (fetch_full_text E (get_link a) max_chars, get_link a))
         (work_list E articles min_score max_articles)))
      \<lparr>attempted = 0, success = 0, cf_count = 0, results = Map.empty\<rparr>)"
  from False have
    "articles_after (enrich_articles E articles min_score max_articles max_chars)
       = map (apply_result ?res) articles"
    by (simp add: enrich_articles_def Let_def)
  then show ?thesis by (simp add: comp_def apply_result_frame)
qed

theorem enrich_frame_witness:
  "map link (articles_after (enrich_articles (env_of (markdown_site ''Hello'')) dup_articles 10 15 2000))
     = [Some ''https://example.org/post'', Some ''https://example.org/post'']
   \<and> map quality_score
        (articles_after (enrich_articles (env_of (markdown_site ''Hello'')) dup_articles 10 15 2000))
     = [Some 12, Some 2]"
  using enrich_frame [of "env_of (markdown_site ''Hello'')" dup_articles 10 15 2000]
  by (simp add: dup_articles_def plain_article_def)

text \<open>
  C3 (untouched Articles). The claim: every Article that is not in the WorkList is left
  unchanged. The outcomes are applied by link to the whole collection, so an Article
  outside the WorkList that shares its link with a WorkList entry is enriched too: here
  the second article, with score 2, is not eligible, and receives the text fetched for
  the first.
\<close>

theorem duplicate_link_enriched_counterexample:
  "dup_articles ! 1 \<notin> set (work_list (env_of (markdown_site ''Hello'')) dup_articles 10 15)
   \<and> articles_after (enrich_articles (env_of (markdown_site ''Hello'')) dup_articles 10 15 2000) ! 1
       \<noteq> dup_articles ! 1"
  by code_simp

text \<open>
  C3, as the code has it. After \<open>enrich_articles\<close>, every Article whose link is not the
  link of any WorkList entry, and every Article whose link's outcome had empty text, is
  left completely unchanged.
\<close>

theorem untouched_articles:
  assumes "i < length articles"
    and "get_link (articles ! i) \<notin> get_link ` set (work_list E articles min_score max_articles)
         \<or> out_text (fetch_full_text E (get_link (articles ! i)) max_chars) = []"
  shows "articles_after (enrich_articles E articles min_score max_articles max_chars) ! i
           = articles ! i"
proof (cases "work_list E articles min_score max_articles = []")
  case True
  then show ?thesis by (simp add: enrich_articles_def)
next
  case False
  let ?W = "work_list E articles min_score max_articles"
  let ?t0 = "\<lparr>attempted = 0, success = 0, cf_count = 0, results = Map.empty\<rparr>"
  let ?futures = "map (\<lambda>a. (fetch_full_text E (get_link a) max_chars, get_link a)) ?W"
  let ?fs = "as_completed (schedule E) ?futures"
  let ?res = "results (collect ?fs ?t0)"
  let ?a = "articles ! i"
  have after: "articles_after (enrich_articles E articles min_score max_articles max_chars) ! i
      = apply_result ?res ?a"
    using False assms(1) by (simp add: enrich_articles_def Let_def)
  have keep: "apply_result ?res ?a = ?a"
  proof (cases "?res (get_link ?a)")
    case None
    then show ?thesis by (simp add: apply_result_def Let_def)
  next
    case (Some r)
    from collect_results_from [OF Some] have "(r, get_link ?a) \<in> set ?fs" by simp
    then have mem: "(r, get_link ?a) \<in> set ?futures" by (simp add: as_completed_set)
    then have r: "r = fetch_full_text E (get_link ?a) max_chars" by auto
    from mem have "get_link ?a \<in> get_link ` set ?W" by auto
    with assms(2) have "out_text (fetch_full_text E (get_link ?a) max_chars) = []" by blast
    then show ?thesis using Some r by (simp add: apply_result_def Let_def)
  qed
  show ?thesis using after keep by simp
qed

theorem untouched_articles_witness:
  "(1::nat) < length ranked_articles
   \<and> get_link (ranked_articles ! 1)
       \<notin> get_link ` set (work_list (env_of (markdown_site ''Hello'')) ranked_articles 10 1)
   \<and> articles_after (enrich_articles (env_of (markdown_site ''Hello'')) ranked_articles 10 1 2000) ! 1
       = ranked_articles ! 1
   \<and> out_text (fetch_full_text (env_of (failing_site (HTTPError 404)))
        (get_link (ranked_articles ! 0)) 2000) = []
   \<and> articles_after (enrich_articles (env_of (failing_site (HTTPError 404))) ranked_articles 10 1 2000) ! 0
       = ranked_articles ! 0"
proof -
  have l1: "(1::nat) < length ranked_articles" by (simp add: ranked_articles_def)
  have l0: "(0::nat) < length ranked_articles" by (simp add: ranked_articles_def)
  have n: "get_link (ranked_articles ! 1)
       \<notin> get_link ` set (work_list (env_of (markdown_site ''Hello'')) ranked_articles 10 1)"
    by code_simp
  have e: "out_text (fetch_full_text (env_of (failing_site (HTTPError 404)))
        (get_link (ranked_articles ! 0)) 2000) = []"
    by code_simp
  have u1: "articles_after (enrich_articles (env_of (markdown_site ''Hello'')) ranked_articles 10 1 2000) ! 1
       = ranked_articles ! 1"
    using n by (intro untouched_articles [OF l1]) simp
  have u0: "articles_after (enrich_articles (env_of (failing_site (HTTPError 404))) ranked_articles 10 1 2000) ! 0
       = ranked_articles ! 0"
    using e by (intro untouched_articles [OF l0]) simp
  show ?thesis using l1 n u1 e u0 by simp
qed

text \<open>
  Conversely, every Article whose link is the link of a WorkList entry and whose outcome
  has text receives the three keys from that outcome, whatever the completion order.
\<close>

lemma enriched_articles:
  assumes "i < length articles"
    and "get_link (articles ! i) \<in> get_link ` set (work_list E articles min_score max_articles)"
    and "out_text (fetch_full_text E (get_link (articles ! i)) max_chars) \<noteq> []"
  shows "articles_after (enrich_articles E articles min_score max_articles max_chars) ! i
           = (articles ! i)
               \<lparr>full_text := Some (out_text (fetch_full_text E (get_link (articles ! i)) max_chars)),
                full_text_method := Some (out_method (fetch_full_text E (get_link (articles ! i)) max_chars)),
                full_text_tokens := Some (out_tokens (fetch_full_text E (get_link (articles ! i)) max_chars))\<rparr>"
proof -
  let ?W = "work_list E articles min_score max_articles"
  let ?t0 = "\<lparr>attempted = 0, success = 0, cf_count = 0, results = Map.empty\<rparr>"
  let ?futures = "map (\<lambda>a. (fetch_full_text E (get_link a) max_chars, get_link a)) ?W"
  let ?fs = "as_completed (schedule E) ?futures"
  let ?res = "results (collect ?fs ?t0)"
  let ?a = "articles ! i"
  from assms(2) have ne: "?W \<noteq> []" by auto
  have after: "articles_after (enrich_articles E articles min_score max_articles max_chars) ! i
      = apply_result ?res ?a"
    using ne assms(1) by (simp add: enrich_articles_def Let_def)
  have all: "\<forall>f \<in> set ?fs. fst f = (\<lambda>u. fetch_full_text E u max_chars) (snd f)"
    by (auto simp: as_completed_set)
  have dom: "get_link ?a \<in> snd ` set ?fs"
    using assms(2) by (force simp: as_completed_set)
  have "?res (get_link ?a) = Some (fetch_full_text E (get_link ?a) max_chars)"
    by (rule collect_results_of [OF all dom])
  then show ?thesis using after assms(3) by (simp add: apply_result_def Let_def)
qed

end
